theory Spec2Isabelle
  imports Main
begin

section \<open>Text as Python sees it\<close>

text \<open>
  The program (\<^verbatim>\<open>process.py\<close>) works on Python 3 \<^verbatim>\<open>str\<close> values: sequences of Unicode
  code points. A character is its code point, a line is a list of code points.
  Language codes are plain ASCII strings (\<^verbatim>\<open>'de'\<close>, \<^verbatim>\<open>'en'\<close>, ...). The regular
  expressions are read as Python 3.7 or later reads them: the patterns of the program
  that hold \<^verbatim>\<open>\u\<close> escapes need Python 3.3 at least, and since 3.7 the module \<^verbatim>\<open>re\<close>
  rejects what it had only warned about before.
\<close>

type_synonym uchar = nat
type_synonym ustring = "uchar list"

definition U :: "string \<Rightarrow> ustring" where
  "U s = map of_char s"

abbreviation NL :: uchar where "NL \<equiv> 0x0A"
abbreviation SP :: uchar where "SP \<equiv> 0x20"
abbreviation EXCL :: uchar where "EXCL \<equiv> 0x21"
abbreviation QUOTE :: uchar where "QUOTE \<equiv> 0x22"
abbreviation APOS :: uchar where "APOS \<equiv> 0x27"
abbreviation COMMA :: uchar where "COMMA \<equiv> 0x2C"
abbreviation HYPHEN :: uchar where "HYPHEN \<equiv> 0x2D"
abbreviation DOT :: uchar where "DOT \<equiv> 0x2E"
abbreviation QUESTION :: uchar where "QUESTION \<equiv> 0x3F"
abbreviation BACKSLASH :: uchar where "BACKSLASH \<equiv> 0x5C"

definition GERMAN :: string where "GERMAN = ''de''"
definition ENGLISH :: string where "ENGLISH = ''en''"
definition SPANISH :: string where "SPANISH = ''es''"
definition FRENCH :: string where "FRENCH = ''fr''"
definition ITALIAN :: string where "ITALIAN = ''it''"
definition DUTCH :: string where "DUTCH = ''nl''"
definition RUSSIAN :: string where "RUSSIAN = ''ru''"
definition CATALAN :: string where "CATALAN = ''ca''"
definition SWEDISH :: string where "SWEDISH = ''sv''"

definition LANGUAGES :: "string list" where
  "LANGUAGES = [GERMAN, ENGLISH, SPANISH, FRENCH, ITALIAN, DUTCH, RUSSIAN, CATALAN, SWEDISH]"

text \<open>
  Whitespace, as \<^verbatim>\<open>str.strip()\<close>, \<^verbatim>\<open>str.isspace()\<close> and the pattern \<^verbatim>\<open>\s\<close> of a \<^verbatim>\<open>str\<close> regular
  expression all decide it (CPython's \<^verbatim>\<open>_PyUnicode_IsWhitespace\<close>): tab to carriage return,
  the four separators U+001C..U+001F, space, NEL, no-break space, and the Unicode space
  separators.
\<close>

definition is_space :: "uchar \<Rightarrow> bool" where
  "is_space c \<longleftrightarrow>
     (0x09 \<le> c \<and> c \<le> 0x0D) \<or> (0x1C \<le> c \<and> c \<le> 0x20) \<or> c = 0x85 \<or> c = 0xA0 \<or>
     c = 0x1680 \<or> (0x2000 \<le> c \<and> c \<le> 0x200A) \<or> c = 0x2028 \<or> c = 0x2029 \<or>
     c = 0x202F \<or> c = 0x205F \<or> c = 0x3000"

text \<open>
  The pattern \<^verbatim>\<open>\w\<close> matches the alphanumeric code points of the interpreter's Unicode
  database (\<^verbatim>\<open>str.isalnum()\<close>) and the underscore. The database is not part of the program:
  it is the parameter \<open>alnum\<close> of every function that uses \<^verbatim>\<open>\w\<close>. On ASCII every Python
  agrees with \<open>ascii_alnum\<close>, which serves where a concrete table is needed.
\<close>

definition is_word :: "(uchar \<Rightarrow> bool) \<Rightarrow> uchar \<Rightarrow> bool" where
  "is_word alnum c \<longleftrightarrow> alnum c \<or> c = 0x5F"

definition ascii_alnum :: "uchar \<Rightarrow> bool" where
  "ascii_alnum c \<longleftrightarrow>
     (0x30 \<le> c \<and> c \<le> 0x39) \<or> (0x41 \<le> c \<and> c \<le> 0x5A) \<or> (0x61 \<le> c \<and> c \<le> 0x7A)"

text \<open>\<^verbatim>\<open>str.strip()\<close>: leading and trailing whitespace removed.\<close>

definition py_strip :: "ustring \<Rightarrow> ustring" where
  "py_strip s = rev (dropWhile is_space (rev (dropWhile is_space s)))"

text \<open>
  \<^verbatim>\<open>str.replace(old, new)\<close>: the occurrences of \<open>old\<close> found scanning from the left, each
  search resuming behind the previous occurrence. (For an empty \<open>old\<close>, which the
  program never passes, Python puts \<open>new\<close> around every character.)
\<close>

fun py_replace :: "ustring \<Rightarrow> ustring \<Rightarrow> ustring \<Rightarrow> ustring" where
  "py_replace old new [] = (if old = [] then new else [])"
| "py_replace old new (c # cs) =
     (if old = [] then new @ c # py_replace old new cs
      else if take (length old) (c # cs) = old
           then new @ py_replace old new (drop (length old - 1) cs)
      else c # py_replace old new cs)"

section \<open>Regular-expression substitution\<close>

text \<open>
  \<^verbatim>\<open>re.sub(pattern, repl, line)\<close> replaces the leftmost non-overlapping matches: at each
  position, from the left, the pattern is tried; where it matches, the expanded
  replacement is emitted and the search resumes behind the match; where it does not,
  the character is copied and the search moves on by one. No pattern of the program
  matches the empty string.

  A pattern is modelled by its matcher at a position: given the rest of the line, it
  returns the expanded replacement and the number of characters matched (at least one),
  for the first match the backtracking engine finds there.
\<close>

type_synonym matcher = "ustring \<Rightarrow> (ustring \<times> nat) option"

fun re_sub :: "matcher \<Rightarrow> ustring \<Rightarrow> ustring" where
  "re_sub m [] = []"
| "re_sub m (c # cs) =
     (case m (c # cs) of
        Some (rep, n) \<Rightarrow> rep @ re_sub m (drop (n - 1) cs)
      | None \<Rightarrow> c # re_sub m cs)"

text \<open>
  Before it searches, \<^verbatim>\<open>re.sub\<close> compiles the replacement string. There a backslash
  followed by a digit refers to a group, a backslash followed by one of
  \<^verbatim>\<open>a b f n r t v\<close> or by a backslash is that escape, \<^verbatim>\<open>\g\<close> starts a named reference, and
  a backslash followed by any other ASCII letter is rejected with \<^verbatim>\<open>re.error\<close>
  ("bad escape"; an error since Python 3.7, before that the two characters were kept as
  written), as is a backslash at the very end. \<open>bad_escape\<close> is that check.
\<close>

definition ascii_letter :: "uchar \<Rightarrow> bool" where
  "ascii_letter c \<longleftrightarrow> (0x41 \<le> c \<and> c \<le> 0x5A) \<or> (0x61 \<le> c \<and> c \<le> 0x7A)"

fun bad_escape :: "ustring \<Rightarrow> bool" where
  "bad_escape [] = False"
| "bad_escape [c] = (c = BACKSLASH)"
| "bad_escape (c # d # rest) =
     (if c = BACKSLASH
      then (ascii_letter d \<and> d \<notin> set (U ''abfnrtvg'')) \<or> bad_escape rest
      else bad_escape (d # rest))"

datatype error =
    IOFailure             \<comment> \<open>\<^verbatim>\<open>UnicodeDecodeError\<close> while reading the input\<close>
  | UnsupportedLanguage   \<comment> \<open>\<^verbatim>\<open>click.BadParameter\<close> from \<^verbatim>\<open>click.Choice(LANGUAGES)\<close>\<close>
  | ReError               \<comment> \<open>\<^verbatim>\<open>re.error\<close>\<close>

section \<open>The rule functions\<close>

subsection \<open>\<^verbatim>\<open>normalize_apostrophes\<close>\<close>

text \<open>
  \<^verbatim>\<open>re.sub(r'\u2019(\w)', r'\u0027\1', line)\<close>. Both strings are raw: the replacement
  holds the eight characters backslash, u, 0, 0, 2, 7, backslash, 1. As a pattern
  \<^verbatim>\<open>\u2019\<close> is the code point U+2019; as a replacement \<^verbatim>\<open>\u\<close> is no escape, so the call
  raises \<^verbatim>\<open>re.error\<close> whatever the line is. (An interpreter before 3.7 would insert the six
  characters \<^verbatim>\<open>\u0027\<close> as written, which is what the matcher returns.)
\<close>

definition apostrophe_template :: ustring where
  "apostrophe_template = [BACKSLASH, 0x75, 0x30, 0x30, 0x32, 0x37, BACKSLASH, 0x31]"

fun m_apostrophe :: "(uchar \<Rightarrow> bool) \<Rightarrow> matcher" where
  "m_apostrophe alnum (a # b # rest) =
     (if a = 0x2019 \<and> is_word alnum b
      then Some ([BACKSLASH, 0x75, 0x30, 0x30, 0x32, 0x37, b], 2) else None)"
| "m_apostrophe alnum s = None"

definition normalize_apostrophes :: "(uchar \<Rightarrow> bool) \<Rightarrow> ustring \<Rightarrow> error + ustring" where
  "normalize_apostrophes alnum line =
     (if bad_escape apostrophe_template then Inl ReError
      else Inr (re_sub (m_apostrophe alnum) line))"

subsection \<open>\<^verbatim>\<open>remove_soft_hyphens\<close>\<close>

definition remove_soft_hyphens :: "ustring \<Rightarrow> ustring" where
  "remove_soft_hyphens line =
     (let line = py_replace [0xAD] [] line;
          line = py_replace [0xB7] [] line
      in line)"

subsection \<open>\<^verbatim>\<open>remove_double_spaces\<close>\<close>

text \<open>\<^verbatim>\<open>re.sub(r'\s+', ' ', line).strip()\<close>: a maximal run of whitespace becomes one space.\<close>

fun m_spaces :: matcher where
  "m_spaces [] = None"
| "m_spaces (c # cs) =
     (if is_space c then Some ([SP], Suc (length (takeWhile is_space cs))) else None)"

definition remove_double_spaces :: "ustring \<Rightarrow> ustring" where
  "remove_double_spaces line = py_strip (re_sub m_spaces line)"

subsection \<open>\<^verbatim>\<open>fix_period_spacing\<close>\<close>

text \<open>
  \<^verbatim>\<open>re.sub(r'(\w)\s?\.(\w)', r'\1. \2', line).strip()\<close>. The optional \<^verbatim>\<open>\s\<close> is greedy, but
  a whitespace character is never the period, so the two ways to match exclude each
  other.
\<close>

fun m_period :: "(uchar \<Rightarrow> bool) \<Rightarrow> matcher" where
  "m_period alnum (a # b # c # rest) =
     (if is_word alnum a \<and> b = DOT \<and> is_word alnum c then Some ([a, DOT, SP, c], 3)
      else (case rest of
              d # _ \<Rightarrow>
                if is_word alnum a \<and> is_space b \<and> c = DOT \<and> is_word alnum d
                then Some ([a, DOT, SP, d], 4) else None
            | [] \<Rightarrow> None))"
| "m_period alnum s = None"

definition fix_period_spacing :: "(uchar \<Rightarrow> bool) \<Rightarrow> ustring \<Rightarrow> ustring" where
  "fix_period_spacing alnum line = py_strip (re_sub (m_period alnum) line)"

subsection \<open>\<^verbatim>\<open>fix_hyphenization\<close>\<close>

text \<open>\<^verbatim>\<open>re.sub(r'(\w)-\s(\w)', r'\1-\2', line)\<close>, then the Dutch and German repairs.\<close>

fun m_hyphen :: "(uchar \<Rightarrow> bool) \<Rightarrow> matcher" where
  "m_hyphen alnum (a # h # b # c # rest) =
     (if is_word alnum a \<and> h = HYPHEN \<and> is_space b \<and> is_word alnum c
      then Some ([a, HYPHEN, c], 4) else None)"
| "m_hyphen alnum s = None"

definition fix_hyphenization :: "(uchar \<Rightarrow> bool) \<Rightarrow> string \<Rightarrow> ustring \<Rightarrow> ustring" where
  "fix_hyphenization alnum language line =
     (let line = re_sub (m_hyphen alnum) line;
          line = (if language = DUTCH
                  then py_replace (U ''-of '') (U ''- of '')
                         (py_replace (U ''-en '') (U ''- en '') line)
                  else line);
          line = (if language = GERMAN
                  then py_replace (U ''-oder '') (U ''- oder '')
                         (py_replace (U ''-und '') (U ''- und '') line)
                  else line)
      in line)"

subsection \<open>\<^verbatim>\<open>replace_quotes\<close>\<close>

text \<open>The six blocks of the function, in its order; each is entered by its own test.\<close>

definition guillemets :: "ustring \<Rightarrow> ustring" where
  \<comment> \<open>\<^verbatim>\<open>if language in [GERMAN, CATALAN]\<close>\<close>
  "guillemets line =
     (let line = py_replace [0xAB] [QUOTE] line;
          line = py_replace [0xBB] [QUOTE] line;
          line = py_replace [0x2039] [APOS] line;
          line = py_replace [0x203A] [APOS] line;
          line = py_replace [0x3C] [APOS] line;
          line = py_replace [0x3E] [APOS] line
      in line)"

definition curly_quotes :: "ustring \<Rightarrow> ustring" where
  \<comment> \<open>\<^verbatim>\<open>if language in [DUTCH, FRENCH, CATALAN, SWEDISH]\<close>\<close>
  "curly_quotes line =
     (let line = py_replace [0x201C] [QUOTE] line;
          line = py_replace [0x201D] [QUOTE] line;
          line = py_replace [0x2018] [APOS] line;
          line = py_replace [0x2019] [APOS] line
      in line)"

text \<open>French: \<^verbatim>\<open>re.sub(r'\s\'', '\'', line)\<close>.\<close>

fun m_french :: matcher where
  "m_french (a # b # rest) = (if is_space a \<and> b = APOS then Some ([APOS], 2) else None)"
| "m_french s = None"

text \<open>
  Dutch: \<^verbatim>\<open>re.sub(r'\'([A-Z]|\.|\s|$)', r'"\1', line)\<close> and
  \<^verbatim>\<open>re.sub(r'(,\s)\'', r'\1"', line)\<close>. The alternative \<^verbatim>\<open>$\<close> also holds before a final
  newline, but there \<^verbatim>\<open>\s\<close>, tried first, has matched the newline already, with the same
  result.
\<close>

fun m_dutch_apostrophe :: matcher where
  "m_dutch_apostrophe [] = None"
| "m_dutch_apostrophe [a] = (if a = APOS then Some ([QUOTE], 1) else None)"
| "m_dutch_apostrophe (a # b # rest) =
     (if a = APOS \<and> ((0x41 \<le> b \<and> b \<le> 0x5A) \<or> b = DOT \<or> is_space b)
      then Some ([QUOTE, b], 2) else None)"

fun m_dutch_comma :: matcher where
  "m_dutch_comma (a # b # c # rest) =
     (if a = COMMA \<and> is_space b \<and> c = APOS then Some ([COMMA, b, QUOTE], 3) else None)"
| "m_dutch_comma s = None"

definition dutch_quotes :: "ustring \<Rightarrow> ustring" where
  \<comment> \<open>\<^verbatim>\<open>if language == DUTCH\<close>\<close>
  "dutch_quotes line =
     (let line = py_replace [APOS, APOS] [APOS] line;
          line = re_sub m_dutch_apostrophe line;
          line = re_sub m_dutch_comma line;
          line = py_replace [QUOTE, 0x74, SP] [APOS, 0x74, SP] line
      in line)"

text \<open>
  Russian. \<^verbatim>\<open>re.sub(r'(^|\.\s?)-\s?', r'\1', line)\<close>: \<^verbatim>\<open>^\<close> holds at the first position
  only, where the match is the hyphen and an optional whitespace character, replaced
  by nothing; everywhere the other alternative is a period, an optional whitespace
  character, the hyphen and an optional whitespace character, replaced by the period
  and the first whitespace character.
\<close>

fun opt_space :: "ustring \<Rightarrow> nat" where
  "opt_space [] = 0"
| "opt_space (c # cs) = (if is_space c then 1 else 0)"

fun m_russian_hyphen :: matcher where
  "m_russian_hyphen (a # b # rest) =
     (if a = DOT \<and> b = HYPHEN then Some ([DOT], 2 + opt_space rest)
      else (case rest of
              c # rest' \<Rightarrow>
                if a = DOT \<and> is_space b \<and> c = HYPHEN
                then Some ([DOT, b], 3 + opt_space rest') else None
            | [] \<Rightarrow> None))"
| "m_russian_hyphen s = None"

fun sub_russian_hyphen :: "ustring \<Rightarrow> ustring" where
  "sub_russian_hyphen [] = []"
| "sub_russian_hyphen (c # cs) =
     (if c = HYPHEN then re_sub m_russian_hyphen (drop (opt_space cs) cs)
      else re_sub m_russian_hyphen (c # cs))"

text \<open>
  \<^verbatim>\<open>re.sub(r'([.,?!])\s(\"(?:\s|$))', r'\1\2', line)\<close> and
  \<^verbatim>\<open>re.sub(r'([.,?!])\s?(\")-', r'\1\2 -', line)\<close>.
\<close>

definition punct :: "uchar \<Rightarrow> bool" where
  "punct c \<longleftrightarrow> c = DOT \<or> c = COMMA \<or> c = QUESTION \<or> c = EXCL"

fun m_russian_quote :: matcher where
  "m_russian_quote [p, b, q] =
     (if punct p \<and> is_space b \<and> q = QUOTE then Some ([p, QUOTE], 3) else None)"
| "m_russian_quote (p # b # q # d # rest) =
     (if punct p \<and> is_space b \<and> q = QUOTE \<and> is_space d then Some ([p, QUOTE, d], 4)
      else None)"
| "m_russian_quote s = None"

fun m_russian_quote_hyphen :: matcher where
  "m_russian_quote_hyphen (p # q # h # rest) =
     (if punct p \<and> q = QUOTE \<and> h = HYPHEN then Some ([p, QUOTE, SP, HYPHEN], 3)
      else (case rest of
              h' # _ \<Rightarrow>
                if punct p \<and> is_space q \<and> h = QUOTE \<and> h' = HYPHEN
                then Some ([p, QUOTE, SP, HYPHEN], 4) else None
            | [] \<Rightarrow> None))"
| "m_russian_quote_hyphen s = None"

text \<open>\<^verbatim>\<open>re.sub(r'(^\")\s', r'\1', line)\<close>: anchored, so it can match once, at the start.\<close>

fun sub_russian_start :: "ustring \<Rightarrow> ustring" where
  "sub_russian_start (q # b # rest) =
     (if q = QUOTE \<and> is_space b then q # rest else q # b # rest)"
| "sub_russian_start s = s"

definition russian_quotes :: "ustring \<Rightarrow> ustring" where
  \<comment> \<open>\<^verbatim>\<open>if language == RUSSIAN\<close>\<close>
  "russian_quotes line =
     (let line = py_replace [QUOTE, QUOTE] [QUOTE] line;
          line = sub_russian_hyphen line;
          line = re_sub m_russian_quote line;
          line = re_sub m_russian_quote_hyphen line;
          line = sub_russian_start line
      in line)"

text \<open>Catalan: \<^verbatim>\<open>re.sub(r'"\.', '."', line)\<close>.\<close>

fun m_catalan :: matcher where
  "m_catalan (q # d # rest) = (if q = QUOTE \<and> d = DOT then Some ([DOT, QUOTE], 2) else None)"
| "m_catalan s = None"

definition replace_quotes :: "string \<Rightarrow> ustring \<Rightarrow> ustring" where
  "replace_quotes language line =
     (let line = (if language \<in> set [GERMAN, CATALAN] then guillemets line else line);
          line = (if language \<in> set [DUTCH, FRENCH, CATALAN, SWEDISH]
                  then curly_quotes line else line);
          line = (if language = FRENCH then re_sub m_french line else line);
          line = (if language = DUTCH then dutch_quotes line else line);
          line = (if language = RUSSIAN then russian_quotes line else line);
          line = (if language = CATALAN then re_sub m_catalan line else line)
      in line)"

subsection \<open>\<^verbatim>\<open>replace_common_errors\<close>\<close>

text \<open>
  \<^verbatim>\<open>re.sub(r'\s?\u2012\s?', ' - ', line)\<close> and the same for U+2013 and U+2014: a dash with
  an optional whitespace character on either side. A whitespace character that no dash
  follows starts no match.
\<close>

fun m_dash :: "uchar \<Rightarrow> matcher" where
  "m_dash dash [] = None"
| "m_dash dash (a # rest) =
     (if a = dash then Some ([SP, HYPHEN, SP], 1 + opt_space rest)
      else (case rest of
              b # rest' \<Rightarrow>
                if is_space a \<and> b = dash then Some ([SP, HYPHEN, SP], 2 + opt_space rest')
                else None
            | [] \<Rightarrow> None))"

definition replace_common_errors :: "string \<Rightarrow> ustring \<Rightarrow> ustring" where
  "replace_common_errors language line =
     (let line = re_sub (m_dash 0x2012) line;
          line = re_sub (m_dash 0x2013) line;
          line = re_sub (m_dash 0x2014) line;
          line = py_replace [0x2026] [DOT, DOT, DOT] line;
          line = (if language = ITALIAN then py_replace [0x45, APOS] [0xC8] line else line)
      in line)"

section \<open>Files and folders\<close>

text \<open>
  Iterating over \<^verbatim>\<open>codecs.open(file_in, 'rb', 'utf-8')\<close> yields the lines of the file, each
  with its line end, and raises \<^verbatim>\<open>UnicodeDecodeError\<close> where the bytes are not UTF-8. An
  input file is the sequence of what the iteration yields. The output file is opened
  only after the reading loop has finished, so a failed run writes nothing.
\<close>

datatype read_event = Line ustring | DecodeError

definition process_line :: "(uchar \<Rightarrow> bool) \<Rightarrow> string \<Rightarrow> ustring \<Rightarrow> error + ustring" where
  \<comment> \<open>the body of \<^verbatim>\<open>if line.strip():\<close>, up to the \<^verbatim>\<open>append\<close>\<close>
  "process_line alnum language line =
     (let line = remove_double_spaces line;
          line = remove_soft_hyphens line;
          line = replace_common_errors language line;
          line = fix_period_spacing alnum line;
          line = fix_hyphenization alnum language line;
          line = replace_quotes language line
      in if language \<in> set [ENGLISH, DUTCH, GERMAN] then normalize_apostrophes alnum line
         else Inr line)"

fun read_lines ::
  "(uchar \<Rightarrow> bool) \<Rightarrow> string \<Rightarrow> read_event list \<Rightarrow> ustring list \<Rightarrow> error + ustring list" where
  "read_lines alnum language [] lines = Inr lines"
| "read_lines alnum language (DecodeError # rest) lines = Inl IOFailure"
| "read_lines alnum language (Line line # rest) lines =
     (if py_strip line \<noteq> []
      then (case process_line alnum language line of
              Inl e \<Rightarrow> Inl e
            | Inr line' \<Rightarrow> read_lines alnum language rest (lines @ [line']))
      else read_lines alnum language rest lines)"

fun write_lines :: "ustring list \<Rightarrow> ustring \<Rightarrow> ustring" where
  "write_lines [] out = out"
| "write_lines (line # lines) out = write_lines lines (out @ line @ [NL] @ [NL])"

definition process_file ::
  "(uchar \<Rightarrow> bool) \<Rightarrow> read_event list \<Rightarrow> string \<Rightarrow> error + ustring" where
  "process_file alnum file_in language =
     (case read_lines alnum language file_in [] of
        Inl e \<Rightarrow> Inl e
      | Inr lines \<Rightarrow> Inr (write_lines lines []))"

text \<open>
  \<^verbatim>\<open>process_folder\<close> without its two flags: the \<^verbatim>\<open>*.txt\<close> files of the input folder, in the
  order \<^verbatim>\<open>glob\<close> lists them, each written under its own name in the output folder. No
  exception is caught: the first file that fails ends the run, and what was written
  before stays. \<^verbatim>\<open>click.Choice(LANGUAGES)\<close> checks the language before the body runs.
\<close>

fun process_files ::
  "(uchar \<Rightarrow> bool) \<Rightarrow> string \<Rightarrow> (string \<times> read_event list) list \<Rightarrow> (string \<rightharpoonup> ustring)
     \<Rightarrow> (string \<rightharpoonup> ustring) \<times> error option" where
  "process_files alnum language [] folder_out = (folder_out, None)"
| "process_files alnum language ((name, file_in) # rest) folder_out =
     (case process_file alnum file_in language of
        Inl e \<Rightarrow> (folder_out, Some e)
      | Inr text \<Rightarrow> process_files alnum language rest (folder_out(name \<mapsto> text)))"

definition click_choice :: "string list \<Rightarrow> string \<Rightarrow> error + string" where
  "click_choice choices v = (if v \<in> set choices then Inr v else Inl UnsupportedLanguage)"

definition process_folder ::
  "(uchar \<Rightarrow> bool) \<Rightarrow> (string \<times> read_event list) list \<Rightarrow> (string \<rightharpoonup> ustring) \<Rightarrow> string
     \<Rightarrow> (string \<rightharpoonup> ustring) \<times> error option" where
  "process_folder alnum folder_in folder_out language =
     (case click_choice LANGUAGES language of
        Inl e \<Rightarrow> (folder_out, Some e)
      | Inr language \<Rightarrow> process_files alnum language folder_in folder_out)"

section \<open>Notions used in the statements and proofs\<close>

text \<open>
  A line is tidy when each of its whitespace characters is a plain space that no
  whitespace character follows: the shape \<^verbatim>\<open>re.sub(r'\s+', ' ', line)\<close> produces.
\<close>

fun tidy :: "ustring \<Rightarrow> bool" where
  "tidy [] = True"
| "tidy [c] = (is_space c \<longrightarrow> c = SP)"
| "tidy (c # d # rest) = ((is_space c \<longrightarrow> c = SP \<and> \<not> is_space d) \<and> tidy (d # rest))"

text \<open>
  The six rules every language passes through, in the order of \<^verbatim>\<open>process_file\<close>; only
  \<^verbatim>\<open>normalize_apostrophes\<close> may follow.
\<close>

abbreviation six_rules :: "(uchar \<Rightarrow> bool) \<Rightarrow> string \<Rightarrow> ustring \<Rightarrow> ustring" where
  "six_rules alnum language line \<equiv>
     replace_quotes language (fix_hyphenization alnum language (fix_period_spacing alnum
       (replace_common_errors language (remove_soft_hyphens (remove_double_spaces line)))))"

text \<open>The characters that the rules after \<^verbatim>\<open>remove_soft_hyphens\<close> can put into a line.\<close>

definition introduced :: "uchar set" where
  "introduced = {SP, HYPHEN, DOT, QUOTE, APOS, 0xC8} \<union> set (U ''enofudrt'')"

text \<open>
  The reading of "every occurrence of word character, hyphen, space, word character is
  collapsed": each whitespace character of the line that has a word character and a
  hyphen right before it and a word character right after it is dropped. \<open>before\<close> is
  the part of the line already passed, nearest character first.
\<close>

fun hyphen_gap :: "(uchar \<Rightarrow> bool) \<Rightarrow> ustring \<Rightarrow> uchar \<Rightarrow> ustring \<Rightarrow> bool" where
  "hyphen_gap alnum (h # a # before) c (d # after) =
     (is_word alnum a \<and> h = HYPHEN \<and> is_space c \<and> is_word alnum d)"
| "hyphen_gap alnum before c after = False"

fun drop_gaps :: "(uchar \<Rightarrow> bool) \<Rightarrow> ustring \<Rightarrow> ustring \<Rightarrow> ustring" where
  "drop_gaps alnum before [] = []"
| "drop_gaps alnum before (c # after) =
     (if hyphen_gap alnum before c after then drop_gaps alnum (c # before) after
      else c # drop_gaps alnum (c # before) after)"

definition collapse_every :: "(uchar \<Rightarrow> bool) \<Rightarrow> ustring \<Rightarrow> ustring" where
  "collapse_every alnum line = drop_gaps alnum [] line"

text \<open>
  Two occurrences overlap when the word character that ends one begins the next:
  word character, hyphen, whitespace, word character, hyphen, whitespace, word character.
\<close>

fun overlapping :: "(uchar \<Rightarrow> bool) \<Rightarrow> ustring \<Rightarrow> bool" where
  "overlapping alnum (a # h # b # c # h' # b' # c' # rest) =
     ((is_word alnum a \<and> h = HYPHEN \<and> is_space b \<and> is_word alnum c \<and>
       h' = HYPHEN \<and> is_space b' \<and> is_word alnum c') \<or>
      overlapping alnum (h # b # c # h' # b' # c' # rest))"
| "overlapping alnum s = False"

section \<open>Facts about replacing and substituting\<close>

lemmas language_defs =
  GERMAN_def ENGLISH_def SPANISH_def FRENCH_def ITALIAN_def DUTCH_def RUSSIAN_def
  CATALAN_def SWEDISH_def


lemma py_replace_char: "py_replace [c] new s = concat (map (\<lambda>x. if x = c then new else [x]) s)"
  by (induction s) auto

lemma py_replace_char_delete: "py_replace [c] [] s = filter (\<lambda>x. x \<noteq> c) s"
  by (induction s) auto

lemma py_replace_char_char: "py_replace [c] [d] s = map (\<lambda>x. if x = c then d else x) s"
  by (induction s) auto

lemma set_py_replace: "set (py_replace old new s) \<subseteq> set s \<union> set new"
proof (induction old new s rule: py_replace.induct)
  case (1 old new)
  then show ?case by auto
next
  case (2 old new c cs)
  have "set (drop (length old - 1) cs) \<subseteq> set cs" by (rule set_drop_subset)
  with 2 show ?case by (auto split: if_splits)
qed

lemma set_re_sub:
  assumes "\<And>t rep n. m t = Some (rep, n) \<Longrightarrow> set rep \<subseteq> set t \<union> A"
  shows "set (re_sub m s) \<subseteq> set s \<union> A"
  using assms
proof (induction m s rule: re_sub.induct)
  case (1 m)
  then show ?case by simp
next
  case (2 m c cs)
  show ?case
  proof (cases "m (c # cs)")
    case None
    with 2 show ?thesis by auto
  next
    case (Some p)
    obtain rep n where p: "p = (rep, n)" by (cases p)
    have d: "set (drop (n - 1) cs) \<subseteq> set cs" by (rule set_drop_subset)
    have r: "set rep \<subseteq> set (c # cs) \<union> A" using Some p "2.prems" by blast
    have "set (re_sub m (drop (n - 1) cs)) \<subseteq> set (drop (n - 1) cs) \<union> A"
      using "2.IH"(2) Some p "2.prems" by blast
    with d r Some p show ?thesis by auto
  qed
qed

lemma re_sub_append:
  assumes loc: "\<And>t. t \<noteq> [] \<Longrightarrow> m (t @ u) = m t"
    and bnd: "\<And>t rep n. m t = Some (rep, n) \<Longrightarrow> n \<le> length t"
  shows "re_sub m (xs @ u) = re_sub m xs @ re_sub m u"
  using assms
proof (induction m xs rule: re_sub.induct)
  case (1 m)
  then show ?case by simp
next
  case (2 m c cs)
  have eq: "m ((c # cs) @ u) = m (c # cs)" using "2.prems"(1) by blast
  show ?case
  proof (cases "m (c # cs)")
    case None
    with 2 eq show ?thesis by simp
  next
    case (Some p)
    obtain rep n where p: "p = (rep, n)" by (cases p)
    have "n \<le> length (c # cs)" using "2.prems"(2) Some p by blast
    then have d: "drop (n - 1) (cs @ u) = drop (n - 1) cs @ u" by simp
    have "re_sub m (drop (n - 1) cs @ u) = re_sub m (drop (n - 1) cs) @ re_sub m u"
      using "2.IH"(2) Some p "2.prems" by blast
    with Some p eq d show ?thesis by simp
  qed
qed

subsection \<open>Collapsing whitespace\<close>

lemma re_sub_spaces_Cons:
  "re_sub m_spaces (c # cs) =
     (if is_space c then SP # re_sub m_spaces (dropWhile is_space cs) else c # re_sub m_spaces cs)"
  by (simp add: dropWhile_eq_drop)

lemma re_sub_spaces_hd:
  "s \<noteq> [] \<Longrightarrow> \<not> is_space (hd s) \<Longrightarrow> re_sub m_spaces s \<noteq> [] \<and> hd (re_sub m_spaces s) = hd s"
  by (cases s) simp_all

lemma tidy_Cons_space:
  "tidy t \<Longrightarrow> (t = [] \<or> \<not> is_space (hd t)) \<Longrightarrow> tidy (SP # t)"
  by (cases t) auto

lemma tidy_Cons_other: "tidy t \<Longrightarrow> \<not> is_space c \<Longrightarrow> tidy (c # t)"
  by (cases t) auto

lemma tidy_re_sub_spaces: "tidy (re_sub m_spaces s)"
proof (induction s rule: length_induct)
  case (1 s)
  show ?case
  proof (cases s)
    case Nil
    then show ?thesis by simp
  next
    case (Cons c cs)
    show ?thesis
    proof (cases "is_space c")
      case True
      let ?t = "dropWhile is_space cs"
      have len: "length ?t < length s" using Cons by (simp add: length_dropWhile_le less_Suc_eq_le)
      have t: "tidy (re_sub m_spaces ?t)" using 1 len by blast
      have "?t = [] \<or> \<not> is_space (hd ?t)" using hd_dropWhile[of is_space cs] by blast
      then have "re_sub m_spaces ?t = [] \<or> \<not> is_space (hd (re_sub m_spaces ?t))"
      proof
        assume "?t = []"
        then have "re_sub m_spaces ?t = []" by (simp only: re_sub.simps)
        then show ?thesis by blast
      next
        assume n: "\<not> is_space (hd ?t)"
        show ?thesis
        proof (cases "?t = []")
          case True
          then have "re_sub m_spaces ?t = []" by (simp only: re_sub.simps)
          then show ?thesis by blast
        next
          case False
          then show ?thesis using n re_sub_spaces_hd[of ?t] by metis
        qed
      qed
      with t have "tidy (SP # re_sub m_spaces ?t)" by (rule tidy_Cons_space)
      with True Cons show ?thesis by (simp only: re_sub_spaces_Cons if_True)
    next
      case False
      have "tidy (re_sub m_spaces cs)" using 1 Cons by simp
      then have "tidy (c # re_sub m_spaces cs)" using False by (rule tidy_Cons_other)
      with False Cons show ?thesis by (simp only: re_sub_spaces_Cons if_False)
    qed
  qed
qed

lemma re_sub_spaces_tidy: "tidy s \<Longrightarrow> re_sub m_spaces s = s"
proof (induction s rule: tidy.induct)
  case 1
  then show ?case by simp
next
  case (2 c)
  then show ?case by simp
next
  case (3 c d rest)
  then have "re_sub m_spaces (d # rest) = d # rest" by simp
  moreover have "is_space c \<Longrightarrow> c = SP \<and> dropWhile is_space (d # rest) = d # rest"
    using 3 by simp
  ultimately show ?case by (simp add: re_sub_spaces_Cons del: re_sub.simps)
qed

lemma tidy_append: "tidy (xs @ ys) \<Longrightarrow> tidy xs \<and> tidy ys"
proof (induction xs rule: tidy.induct)
  case 1
  then show ?case by simp
next
  case (2 c)
  then show ?case by (cases ys) auto
next
  case (3 c d rest)
  then show ?case by auto
qed

lemma py_strip_decompose:
  "\<exists>pre post. s = pre @ py_strip s @ post"
proof -
  let ?t = "dropWhile is_space s"
  have 1: "s = takeWhile is_space s @ ?t" by simp
  have "rev ?t = takeWhile is_space (rev ?t) @ dropWhile is_space (rev ?t)" by simp
  then have "?t = rev (dropWhile is_space (rev ?t)) @ rev (takeWhile is_space (rev ?t))"
    by (metis rev_append rev_rev_ident)
  then have "s = takeWhile is_space s @ py_strip s @ rev (takeWhile is_space (rev ?t))"
    unfolding py_strip_def using 1 by simp
  then show ?thesis by blast
qed

lemma tidy_py_strip: "tidy s \<Longrightarrow> tidy (py_strip s)"
proof -
  assume t: "tidy s"
  obtain pre post where "s = pre @ py_strip s @ post" using py_strip_decompose by blast
  with t have "tidy (pre @ py_strip s @ post)" by simp
  then show ?thesis using tidy_append by blast
qed

lemma py_strip_ends:
  "py_strip s = [] \<or> (\<not> is_space (hd (py_strip s)) \<and> \<not> is_space (last (py_strip s)))"
proof -
  let ?t = "dropWhile is_space s"
  let ?r = "dropWhile is_space (rev ?t)"
  show ?thesis
  proof (cases "?r = []")
    case True
    then show ?thesis by (simp add: py_strip_def)
  next
    case False
    have a: "\<not> is_space (hd ?r)" using False hd_dropWhile by blast
    have "?t = [] \<Longrightarrow> ?r = []" by (simp only: rev.simps dropWhile.simps)
    then have tne: "?t \<noteq> []" using False by blast
    have b: "\<not> is_space (hd ?t)" using tne hd_dropWhile by blast
    have "last ?r = last (rev ?t)" using False
      by (metis append_take_drop_id dropWhile_eq_drop last_appendR)
    then have "hd (rev ?r) = hd ?t" using False tne by (simp add: hd_rev last_rev)
    with a b False show ?thesis by (simp add: py_strip_def last_rev)
  qed
qed

lemma dropWhile_hd: "t \<noteq> [] \<Longrightarrow> \<not> P (hd t) \<Longrightarrow> dropWhile P t = t"
  by (cases t) auto

lemma py_strip_id:
  "s = [] \<or> (\<not> is_space (hd s) \<and> \<not> is_space (last s)) \<Longrightarrow> py_strip s = s"
proof (cases "s = []")
  case True
  then show ?thesis by (simp add: py_strip_def)
next
  case False
  assume "s = [] \<or> (\<not> is_space (hd s) \<and> \<not> is_space (last s))"
  with False have h: "\<not> is_space (hd s)" and l: "\<not> is_space (last s)" by auto
  have 1: "dropWhile is_space s = s" using False h by (rule dropWhile_hd)
  have "hd (rev s) = last s" using False by (simp add: hd_rev)
  then have 2: "dropWhile is_space (rev s) = rev s" using False l by (simp add: dropWhile_hd)
  show ?thesis by (simp add: py_strip_def 1 2)
qed

lemma py_strip_idem: "py_strip (py_strip s) = py_strip s"
  using py_strip_ends py_strip_id by blast

text \<open>
  Claim C8: \<^verbatim>\<open>remove_double_spaces\<close> (collapseWhitespace) is idempotent: on every line,
  applying it twice gives what applying it once gives.
\<close>

theorem remove_double_spaces_idempotent:
  "remove_double_spaces (remove_double_spaces line) = remove_double_spaces line"
proof -
  let ?r = "py_strip (re_sub m_spaces line)"
  have "tidy ?r" using tidy_re_sub_spaces tidy_py_strip by blast
  then have "re_sub m_spaces ?r = ?r" by (rule re_sub_spaces_tidy)
  then show ?thesis by (simp add: remove_double_spaces_def py_strip_idem)
qed

subsection \<open>Which characters a rule can bring in\<close>

lemma set_py_strip: "set (py_strip s) \<subseteq> set s"
proof -
  have "set (py_strip s) \<subseteq> set (dropWhile is_space s)"
    unfolding py_strip_def using set_dropWhileD by fastforce
  then show ?thesis using set_dropWhileD by fastforce
qed

lemma bad_apostrophe_template: "bad_escape apostrophe_template"
  by (simp add: apostrophe_template_def ascii_letter_def U_def)

text \<open>
  The other replacement strings of the program that hold a backslash,
  \<^verbatim>\<open>\1. \2\<close>, \<^verbatim>\<open>\1-\2\<close>, \<^verbatim>\<open>"\1\<close>, \<^verbatim>\<open>\1"\<close>, \<^verbatim>\<open>\1\<close>, \<^verbatim>\<open>\1\2\<close> and \<^verbatim>\<open>\1\2 -\<close>, refer to
  groups only and are accepted.
\<close>

lemma other_templates_accepted:
  "\<not> bad_escape [BACKSLASH, 0x31, DOT, SP, BACKSLASH, 0x32]"
  "\<not> bad_escape [BACKSLASH, 0x31, HYPHEN, BACKSLASH, 0x32]"
  "\<not> bad_escape [QUOTE, BACKSLASH, 0x31]"
  "\<not> bad_escape [BACKSLASH, 0x31, QUOTE]"
  "\<not> bad_escape [BACKSLASH, 0x31]"
  "\<not> bad_escape [BACKSLASH, 0x31, BACKSLASH, 0x32]"
  "\<not> bad_escape [BACKSLASH, 0x31, BACKSLASH, 0x32, SP, HYPHEN]"
  by (simp_all add: ascii_letter_def)

lemma normalize_apostrophes_fails: "normalize_apostrophes alnum line = Inl ReError"
  by (simp add: normalize_apostrophes_def bad_apostrophe_template)

lemma process_line_eq:
  "process_line alnum language line =
     (if language \<in> {ENGLISH, DUTCH, GERMAN} then normalize_apostrophes alnum (six_rules alnum language line)
      else Inr (six_rules alnum language line))"
  by (simp add: process_line_def Let_def)

lemma m_dash_set: "m_dash d t = Some (rep, n) \<Longrightarrow> set rep \<subseteq> set t \<union> introduced"
  by (cases t) (auto simp: introduced_def split: if_splits list.splits)

lemma m_period_set: "m_period alnum t = Some (rep, n) \<Longrightarrow> set rep \<subseteq> set t \<union> introduced"
  by (induction alnum t rule: m_period.induct) (auto simp: introduced_def split: if_splits list.splits)

lemma m_hyphen_set: "m_hyphen alnum t = Some (rep, n) \<Longrightarrow> set rep \<subseteq> set t \<union> introduced"
  by (induction alnum t rule: m_hyphen.induct) (auto simp: introduced_def split: if_splits list.splits)

lemma m_french_set: "m_french t = Some (rep, n) \<Longrightarrow> set rep \<subseteq> set t \<union> introduced"
  by (induction t rule: m_french.induct) (auto simp: introduced_def split: if_splits list.splits)

lemma m_dutch_apostrophe_set: "m_dutch_apostrophe t = Some (rep, n) \<Longrightarrow> set rep \<subseteq> set t \<union> introduced"
  by (induction t rule: m_dutch_apostrophe.induct) (auto simp: introduced_def split: if_splits list.splits)

lemma m_dutch_comma_set: "m_dutch_comma t = Some (rep, n) \<Longrightarrow> set rep \<subseteq> set t \<union> introduced"
  by (induction t rule: m_dutch_comma.induct) (auto simp: introduced_def split: if_splits list.splits)

lemma m_russian_hyphen_set: "m_russian_hyphen t = Some (rep, n) \<Longrightarrow> set rep \<subseteq> set t \<union> introduced"
  by (induction t rule: m_russian_hyphen.induct) (auto simp: introduced_def split: if_splits list.splits)

lemma m_russian_quote_set: "m_russian_quote t = Some (rep, n) \<Longrightarrow> set rep \<subseteq> set t \<union> introduced"
  by (induction t rule: m_russian_quote.induct) (auto simp: introduced_def split: if_splits list.splits)

lemma m_russian_quote_hyphen_set:
  "m_russian_quote_hyphen t = Some (rep, n) \<Longrightarrow> set rep \<subseteq> set t \<union> introduced"
  by (induction t rule: m_russian_quote_hyphen.induct) (auto simp: introduced_def split: if_splits list.splits)

lemma m_catalan_set: "m_catalan t = Some (rep, n) \<Longrightarrow> set rep \<subseteq> set t \<union> introduced"
  by (induction t rule: m_catalan.induct) (auto simp: introduced_def split: if_splits list.splits)

lemma intro_trans: "B \<subseteq> A \<union> J \<Longrightarrow> A \<subseteq> S \<union> J \<Longrightarrow> B \<subseteq> S \<union> J"
  by blast

lemma set_replace_common_errors:
  "set (replace_common_errors language s) \<subseteq> set s \<union> introduced"
proof -
  let ?a = "re_sub (m_dash 0x2012) s"
  let ?b = "re_sub (m_dash 0x2013) ?a"
  let ?c = "re_sub (m_dash 0x2014) ?b"
  let ?d = "py_replace [0x2026] [DOT, DOT, DOT] ?c"
  have a: "set ?a \<subseteq> set s \<union> introduced" by (rule set_re_sub) (rule m_dash_set)
  have b: "set ?b \<subseteq> set ?a \<union> introduced" by (rule set_re_sub) (rule m_dash_set)
  have c: "set ?c \<subseteq> set ?b \<union> introduced" by (rule set_re_sub) (rule m_dash_set)
  have d: "set ?d \<subseteq> set ?c \<union> introduced"
    using set_py_replace[of "[0x2026]" "[DOT, DOT, DOT]" ?c] by (auto simp: introduced_def)
  have e: "set (py_replace [0x45, APOS] [0xC8] ?d) \<subseteq> set ?d \<union> introduced"
    using set_py_replace[of "[0x45, APOS]" "[0xC8]" ?d] by (auto simp: introduced_def)
  note b' = intro_trans[OF b a]
  note c' = intro_trans[OF c b']
  note d' = intro_trans[OF d c']
  note e' = intro_trans[OF e d']
  show ?thesis
  proof (cases "language = ITALIAN")
    case True
    then have "replace_common_errors language s = py_replace [0x45, APOS] [0xC8] ?d"
      by (simp add: replace_common_errors_def Let_def)
    with e' show ?thesis by simp
  next
    case False
    then have "replace_common_errors language s = ?d"
      by (simp add: replace_common_errors_def Let_def)
    with d' show ?thesis by simp
  qed
qed

lemma set_fix_period_spacing: "set (fix_period_spacing alnum s) \<subseteq> set s \<union> introduced"
proof -
  have "set (re_sub (m_period alnum) s) \<subseteq> set s \<union> introduced"
    by (rule set_re_sub) (rule m_period_set)
  then show ?thesis unfolding fix_period_spacing_def using set_py_strip by blast
qed

lemma set_py_replace_introduced:
  "set new \<subseteq> introduced \<Longrightarrow> set (py_replace old new s) \<subseteq> set s \<union> introduced"
  using set_py_replace[of old new s] by auto

lemma set_py_replace2_introduced:
  "set new \<subseteq> introduced \<Longrightarrow> set new' \<subseteq> introduced \<Longrightarrow>
   set (py_replace old' new' (py_replace old new s)) \<subseteq> set s \<union> introduced"
  using set_py_replace[of old new s] set_py_replace[of old' new' "py_replace old new s"] by auto

lemma set_fix_hyphenization: "set (fix_hyphenization alnum language s) \<subseteq> set s \<union> introduced"
proof -
  let ?a = "re_sub (m_hyphen alnum) s"
  let ?b = "if language = DUTCH
            then py_replace (U ''-of '') (U ''- of '') (py_replace (U ''-en '') (U ''- en '') ?a)
            else ?a"
  let ?c = "if language = GERMAN
            then py_replace (U ''-oder '') (U ''- oder '') (py_replace (U ''-und '') (U ''- und '') ?b)
            else ?b"
  have a: "set ?a \<subseteq> set s \<union> introduced" by (rule set_re_sub) (rule m_hyphen_set)
  have inc: "set (U ''- en '') \<subseteq> introduced" "set (U ''- of '') \<subseteq> introduced"
    "set (U ''- und '') \<subseteq> introduced" "set (U ''- oder '') \<subseteq> introduced"
    by (simp_all add: introduced_def U_def)
  have b: "set ?b \<subseteq> set ?a \<union> introduced"
    using set_py_replace2_introduced[OF inc(1) inc(2), of "U ''-of ''" "U ''-en ''" ?a]
    by (cases "language = DUTCH") auto
  have c: "set ?c \<subseteq> set ?b \<union> introduced"
    using set_py_replace2_introduced[OF inc(3) inc(4), of "U ''-oder ''" "U ''-und ''" ?b]
    by (cases "language = GERMAN") auto
  have "fix_hyphenization alnum language s = ?c" by (simp add: fix_hyphenization_def Let_def)
  with intro_trans[OF c intro_trans[OF b a]] show ?thesis by simp
qed

lemma set_guillemets: "set (guillemets s) \<subseteq> set s \<union> introduced"
  unfolding guillemets_def Let_def py_replace_char_char by (auto simp: introduced_def)

lemma set_curly_quotes: "set (curly_quotes s) \<subseteq> set s \<union> introduced"
  unfolding curly_quotes_def Let_def py_replace_char_char by (auto simp: introduced_def)

lemma set_dutch_quotes: "set (dutch_quotes s) \<subseteq> set s \<union> introduced"
proof -
  let ?a = "py_replace [APOS, APOS] [APOS] s"
  let ?b = "re_sub m_dutch_apostrophe ?a"
  let ?c = "re_sub m_dutch_comma ?b"
  let ?d = "py_replace [QUOTE, 0x74, SP] [APOS, 0x74, SP] ?c"
  have a: "set ?a \<subseteq> set s \<union> introduced"
    by (rule set_py_replace_introduced) (simp add: introduced_def)
  have b: "set ?b \<subseteq> set ?a \<union> introduced" by (rule set_re_sub) (rule m_dutch_apostrophe_set)
  have c: "set ?c \<subseteq> set ?b \<union> introduced" by (rule set_re_sub) (rule m_dutch_comma_set)
  have d: "set ?d \<subseteq> set ?c \<union> introduced"
    by (rule set_py_replace_introduced) (simp add: introduced_def U_def)
  have "dutch_quotes s = ?d" by (simp add: dutch_quotes_def Let_def)
  with intro_trans[OF d intro_trans[OF c intro_trans[OF b a]]] show ?thesis by simp
qed

lemma set_sub_russian_hyphen: "set (sub_russian_hyphen s) \<subseteq> set s \<union> introduced"
proof (cases s)
  case Nil
  then show ?thesis by simp
next
  case (Cons c cs)
  have 1: "set (re_sub m_russian_hyphen (drop (opt_space cs) cs)) \<subseteq> set (drop (opt_space cs) cs) \<union> introduced"
    by (rule set_re_sub) (rule m_russian_hyphen_set)
  have 2: "set (drop (opt_space cs) cs) \<subseteq> set cs" by (rule set_drop_subset)
  have 3: "set (re_sub m_russian_hyphen (c # cs)) \<subseteq> set (c # cs) \<union> introduced"
    by (rule set_re_sub) (rule m_russian_hyphen_set)
  show ?thesis
  proof (cases "c = HYPHEN")
    case True
    with Cons 1 2 show ?thesis by (simp del: re_sub.simps) blast
  next
    case False
    with Cons 3 show ?thesis by (simp del: re_sub.simps)
  qed
qed

lemma set_sub_russian_start: "set (sub_russian_start s) \<subseteq> set s"
  by (induction s rule: sub_russian_start.induct) auto

lemma set_russian_quotes: "set (russian_quotes s) \<subseteq> set s \<union> introduced"
proof -
  let ?a = "py_replace [QUOTE, QUOTE] [QUOTE] s"
  let ?b = "sub_russian_hyphen ?a"
  let ?c = "re_sub m_russian_quote ?b"
  let ?d = "re_sub m_russian_quote_hyphen ?c"
  have a: "set ?a \<subseteq> set s \<union> introduced"
    by (rule set_py_replace_introduced) (simp add: introduced_def)
  have b: "set ?b \<subseteq> set ?a \<union> introduced" by (rule set_sub_russian_hyphen)
  have c: "set ?c \<subseteq> set ?b \<union> introduced" by (rule set_re_sub) (rule m_russian_quote_set)
  have d: "set ?d \<subseteq> set ?c \<union> introduced" by (rule set_re_sub) (rule m_russian_quote_hyphen_set)
  have e: "set (sub_russian_start ?d) \<subseteq> set ?d \<union> introduced"
    using set_sub_russian_start[of ?d] by blast
  have "russian_quotes s = sub_russian_start ?d" by (simp add: russian_quotes_def Let_def)
  with intro_trans[OF e intro_trans[OF d intro_trans[OF c intro_trans[OF b a]]]]
  show ?thesis by simp
qed

lemma set_replace_quotes: "set (replace_quotes language s) \<subseteq> set s \<union> introduced"
proof -
  let ?a = "if language \<in> set [GERMAN, CATALAN] then guillemets s else s"
  let ?b = "if language \<in> set [DUTCH, FRENCH, CATALAN, SWEDISH] then curly_quotes ?a else ?a"
  let ?c = "if language = FRENCH then re_sub m_french ?b else ?b"
  let ?d = "if language = DUTCH then dutch_quotes ?c else ?c"
  let ?e = "if language = RUSSIAN then russian_quotes ?d else ?d"
  let ?f = "if language = CATALAN then re_sub m_catalan ?e else ?e"
  have a: "set ?a \<subseteq> set s \<union> introduced" using set_guillemets[of s] by auto
  have b: "set ?b \<subseteq> set ?a \<union> introduced" using set_curly_quotes[of ?a] by auto
  have "set (re_sub m_french ?b) \<subseteq> set ?b \<union> introduced" by (rule set_re_sub) (rule m_french_set)
  then have c: "set ?c \<subseteq> set ?b \<union> introduced" by auto
  have d: "set ?d \<subseteq> set ?c \<union> introduced" using set_dutch_quotes[of ?c] by auto
  have e: "set ?e \<subseteq> set ?d \<union> introduced" using set_russian_quotes[of ?d] by auto
  have "set (re_sub m_catalan ?e) \<subseteq> set ?e \<union> introduced" by (rule set_re_sub) (rule m_catalan_set)
  then have f: "set ?f \<subseteq> set ?e \<union> introduced" by auto
  have "replace_quotes language s = ?f" by (simp only: replace_quotes_def Let_def)
  with intro_trans[OF f intro_trans[OF e intro_trans[OF d intro_trans[OF c intro_trans[OF b a]]]]]
  show ?thesis by simp
qed

lemma set_after_soft_hyphens:
  "set (replace_quotes language (fix_hyphenization alnum language (fix_period_spacing alnum
       (replace_common_errors language s)))) \<subseteq> set s \<union> introduced"
  by (rule intro_trans[OF set_replace_quotes intro_trans[OF set_fix_hyphenization
        intro_trans[OF set_fix_period_spacing set_replace_common_errors]]])

lemma set_remove_soft_hyphens: "set (remove_soft_hyphens s) = set s - {0xAD, 0xB7}"
  by (auto simp: remove_soft_hyphens_def Let_def py_replace_char_delete)

section \<open>The claims about lines, files and folders\<close>

lemmas ev = U_def language_defs is_word_def is_space_def ascii_alnum_def ascii_letter_def
  process_file_def process_line_def remove_double_spaces_def remove_soft_hyphens_def
  replace_common_errors_def fix_period_spacing_def fix_hyphenization_def replace_quotes_def
  normalize_apostrophes_def apostrophe_template_def py_strip_def guillemets_def curly_quotes_def
  dutch_quotes_def russian_quotes_def punct_def Let_def

lemma six_rules_clean:
  "0xAD \<notin> set (six_rules alnum language line) \<and> 0xB7 \<notin> set (six_rules alnum language line)"
proof -
  let ?s = "remove_soft_hyphens (remove_double_spaces line)"
  have "set (six_rules alnum language line) \<subseteq> set ?s \<union> introduced"
    by (rule set_after_soft_hyphens)
  moreover have "0xAD \<notin> set ?s \<union> introduced" "0xB7 \<notin> set ?s \<union> introduced"
    by (simp_all add: set_remove_soft_hyphens introduced_def U_def)
  ultimately show ?thesis by blast
qed

lemma write_lines_eq: "write_lines ls out = out @ concat (map (\<lambda>l. l @ [NL, NL]) ls)"
  by (induction ls arbitrary: out) simp_all

lemma read_lines_set:
  "read_lines alnum language file_in acc = Inr ls \<Longrightarrow>
   set ls \<subseteq> set acc \<union> {l. \<exists>line. process_line alnum language line = Inr l}"
proof (induction alnum language file_in acc rule: read_lines.induct)
  case (1 alnum language lines)
  then show ?case by auto
next
  case (2 alnum language rest lines)
  then show ?case by simp
next
  case (3 alnum language line rest lines)
  show ?case
  proof (cases "py_strip line \<noteq> []")
    case True
    show ?thesis
    proof (cases "process_line alnum language line")
      case (Inl e)
      with True "3.prems" show ?thesis by simp
    next
      case (Inr l)
      with True "3.prems" have "read_lines alnum language rest (lines @ [l]) = Inr ls" by simp
      with "3.IH"(1)[OF True Inr] have "set ls \<subseteq> set (lines @ [l]) \<union> {l. \<exists>line. process_line alnum language line = Inr l}"
        by blast
      with Inr show ?thesis by auto
    qed
  next
    case False
    with "3.prems" have "read_lines alnum language rest lines = Inr ls" by simp
    with "3.IH"(2) False show ?thesis by blast
  qed
qed

lemma process_line_clean:
  "process_line alnum language line = Inr out \<Longrightarrow> 0xAD \<notin> set out \<and> 0xB7 \<notin> set out"
  using six_rules_clean[where alnum = alnum and language = language and line = line]
  by (auto simp: process_line_eq normalize_apostrophes_fails split: if_splits)

text \<open>
  Claim C10: for every language code and every line, what the rules of \<^verbatim>\<open>process_file\<close>
  make of the line holds no soft hyphen (U+00AD) and no middle dot (U+00B7):
  \<^verbatim>\<open>remove_soft_hyphens\<close> removes them and no later rule brings one in. This holds of the
  line after the six rules, of every line the whole body yields, and of every output
  file.
\<close>

theorem pipeline_output_clean:
  "0xAD \<notin> set (six_rules alnum language line) \<and> 0xB7 \<notin> set (six_rules alnum language line) \<and>
   (process_line alnum language line = Inr out \<longrightarrow> 0xAD \<notin> set out \<and> 0xB7 \<notin> set out) \<and>
   (process_file alnum file_in language = Inr written \<longrightarrow> 0xAD \<notin> set written \<and> 0xB7 \<notin> set written)"
proof -
  have "0xAD \<notin> set written \<and> 0xB7 \<notin> set written" if pf: "process_file alnum file_in language = Inr written"
  proof -
    from pf obtain ls where r: "read_lines alnum language file_in [] = Inr ls"
      and t: "written = write_lines ls []"
      by (auto simp: process_file_def split: sum.splits)
    have "\<forall>l \<in> set ls. 0xAD \<notin> set l \<and> 0xB7 \<notin> set l"
      using read_lines_set[OF r] process_line_clean by fastforce
    then show ?thesis unfolding t write_lines_eq by auto
  qed
  then show ?thesis using six_rules_clean process_line_clean by blast
qed

theorem pipeline_output_clean_witness:
  "process_line ascii_alnum FRENCH [0x61, 0xAD, 0x62, 0xB7] = Inr [0x61, 0x62] \<and>
   0xAD \<notin> set [0x61, 0x62::nat] \<and>
   process_file ascii_alnum [Line [0x61, 0xAD, 0x62, 0xB7, NL]] FRENCH = Inr [0x61, 0x62, NL, NL]"
  using pipeline_output_clean[where alnum = ascii_alnum and language = FRENCH
      and line = "[0x61, 0xAD, 0x62, 0xB7]" and out = "[0x61, 0x62]"
      and file_in = "[Line [0x61, 0xAD, 0x62, 0xB7, NL]]" and written = "[0x61, 0x62, NL, NL]"]
  by (simp add: ev)

text \<open>
  Claim C9: for English, Spanish and Italian \<^verbatim>\<open>replace_quotes\<close> returns every line as it
  is, since none of its six tests holds for them; curly quotes and U+2019 pass through
  unchanged.
\<close>

theorem replace_quotes_identity:
  "language \<in> {ENGLISH, SPANISH, ITALIAN} \<Longrightarrow> replace_quotes language line = line"
  by (auto simp: replace_quotes_def language_defs)

theorem replace_quotes_identity_witness:
  "ENGLISH \<in> {ENGLISH, SPANISH, ITALIAN} \<and>
   replace_quotes ENGLISH [0x201C, 0x61, 0x2019, 0x62, 0x201D] = [0x201C, 0x61, 0x2019, 0x62, 0x201D]"
  using replace_quotes_identity[of ENGLISH "[0x201C, 0x61, 0x2019, 0x62, 0x201D]"] by simp

text \<open>
  Claim C6: each of the nine language codes passes the check of the command line, and
  the run is then the run of the body; any other code is refused with
  \<open>UnsupportedLanguage\<close>, nothing is processed and no other language stands in.
\<close>

theorem language_validation:
  "(language \<in> {GERMAN, ENGLISH, SPANISH, FRENCH, ITALIAN, DUTCH, RUSSIAN, CATALAN, SWEDISH} \<longrightarrow>
      click_choice LANGUAGES language = Inr language \<and>
      process_folder alnum folder_in folder_out language =
        process_files alnum language folder_in folder_out) \<and>
   (language \<notin> {GERMAN, ENGLISH, SPANISH, FRENCH, ITALIAN, DUTCH, RUSSIAN, CATALAN, SWEDISH} \<longrightarrow>
      click_choice LANGUAGES language = Inl UnsupportedLanguage \<and>
      process_folder alnum folder_in folder_out language = (folder_out, Some UnsupportedLanguage))"
  by (auto simp: click_choice_def process_folder_def LANGUAGES_def)

theorem language_validation_witness:
  "click_choice LANGUAGES ''de'' = Inr ''de'' \<and>
   click_choice LANGUAGES ''en'' = Inr ''en'' \<and>
   click_choice LANGUAGES ''es'' = Inr ''es'' \<and>
   click_choice LANGUAGES ''fr'' = Inr ''fr'' \<and>
   click_choice LANGUAGES ''it'' = Inr ''it'' \<and>
   click_choice LANGUAGES ''nl'' = Inr ''nl'' \<and>
   click_choice LANGUAGES ''ru'' = Inr ''ru'' \<and>
   click_choice LANGUAGES ''ca'' = Inr ''ca'' \<and>
   click_choice LANGUAGES ''sv'' = Inr ''sv'' \<and>
   ''xx'' \<notin> {GERMAN, ENGLISH, SPANISH, FRENCH, ITALIAN, DUTCH, RUSSIAN, CATALAN, SWEDISH} \<and>
   click_choice LANGUAGES ''xx'' = Inl UnsupportedLanguage \<and>
   process_folder ascii_alnum [(''a.txt'', [Line [0x61, NL]])] Map.empty ''xx''
     = (Map.empty, Some UnsupportedLanguage) \<and>
   CATALAN \<in> {GERMAN, ENGLISH, SPANISH, FRENCH, ITALIAN, DUTCH, RUSSIAN, CATALAN, SWEDISH} \<and>
   process_folder ascii_alnum [] Map.empty CATALAN = (Map.empty, None)"
  using language_validation[where language = "''xx''" and alnum = ascii_alnum
      and folder_in = "[(''a.txt'', [Line [0x61, NL]])]" and folder_out = Map.empty]
    language_validation[where language = CATALAN and alnum = ascii_alnum
      and folder_in = "[]" and folder_out = Map.empty]
  by (simp add: language_defs click_choice_def LANGUAGES_def)

lemma tidy_spaces: "tidy s \<Longrightarrow> c \<in> set s \<Longrightarrow> is_space c \<Longrightarrow> c = SP"
  by (induction s rule: tidy.induct) auto

lemma remove_double_spaces_no_newline: "NL \<notin> set (remove_double_spaces line)"
proof
  assume "NL \<in> set (remove_double_spaces line)"
  moreover have "tidy (remove_double_spaces line)"
    unfolding remove_double_spaces_def using tidy_re_sub_spaces tidy_py_strip by blast
  moreover have "is_space NL" by (simp add: is_space_def)
  ultimately have "NL = SP" by (metis tidy_spaces)
  then show False by simp
qed

lemma six_rules_no_newline: "NL \<notin> set (six_rules alnum language line)"
proof -
  let ?s = "remove_soft_hyphens (remove_double_spaces line)"
  have "set (six_rules alnum language line) \<subseteq> set ?s \<union> introduced"
    by (rule set_after_soft_hyphens)
  moreover have "NL \<notin> set ?s" using remove_double_spaces_no_newline[of line]
    by (simp add: set_remove_soft_hyphens)
  moreover have "NL \<notin> introduced" by (simp add: introduced_def U_def)
  ultimately show ?thesis by blast
qed

lemma read_lines_other_languages:
  "language \<notin> {ENGLISH, DUTCH, GERMAN} \<Longrightarrow>
   read_lines alnum language (map Line ls) acc
     = Inr (acc @ map (six_rules alnum language) (filter (\<lambda>l. py_strip l \<noteq> []) ls))"
  by (induction ls arbitrary: acc) (simp_all add: process_line_eq)

lemma process_file_other_languages:
  "language \<notin> {ENGLISH, DUTCH, GERMAN} \<Longrightarrow>
   process_file alnum (map Line ls) language
     = Inr (concat (map (\<lambda>l. six_rules alnum language l @ [NL, NL])
                        (filter (\<lambda>l. py_strip l \<noteq> []) ls)))"
  by (simp add: process_file_def read_lines_other_languages write_lines_eq comp_def)

lemma read_lines_apostrophe_languages:
  "language \<in> {ENGLISH, DUTCH, GERMAN} \<Longrightarrow> Line line \<in> set file_in \<Longrightarrow> py_strip line \<noteq> [] \<Longrightarrow>
   \<exists>e. read_lines alnum language file_in acc = Inl e"
proof (induction alnum language file_in acc rule: read_lines.induct)
  case (1 alnum language lines)
  then show ?case by simp
next
  case (2 alnum language rest lines)
  then show ?case by simp
next
  case (3 alnum language l rest lines)
  show ?case
  proof (cases "py_strip l \<noteq> []")
    case True
    with "3.prems"(1) show ?thesis by (simp add: process_line_eq normalize_apostrophes_fails)
  next
    case False
    with "3.prems" have "Line line \<in> set rest" by auto
    with "3.IH"(2) False "3.prems" show ?thesis by simp
  qed
qed

lemma process_file_apostrophe_languages:
  "language \<in> {ENGLISH, DUTCH, GERMAN} \<Longrightarrow> Line line \<in> set file_in \<Longrightarrow> py_strip line \<noteq> [] \<Longrightarrow>
   \<exists>e. process_file alnum file_in language = Inl e"
  using read_lines_apostrophe_languages[of language line file_in alnum "[]"]
  by (auto simp: process_file_def)

text \<open>
  Claim C1: for every input and every supported language, \<^verbatim>\<open>process_file\<close> writes every
  non-blank line, transformed and in order, each followed by two newline characters, and
  nothing for a blank line. For the six languages other than English, Dutch and German
  this is \<open>process_file_other_languages\<close> with \<open>six_rules_no_newline\<close>. For those three
  every non-blank line reaches \<^verbatim>\<open>normalize_apostrophes\<close>, which raises
  (\<open>process_file_apostrophe_languages\<close>): an English file holding the one line \<^verbatim>\<open>a\<close>
  yields no output at all.
\<close>

theorem process_file_english_fails:
  "process_file ascii_alnum [Line [0x61, NL]] ENGLISH = Inl ReError"
  by (simp add: ev)

text \<open>
  Claim C2: what \<^verbatim>\<open>process_file\<close> does to a non-blank line is, for every language, the
  rules in one fixed order: \<^verbatim>\<open>remove_double_spaces\<close>, \<^verbatim>\<open>remove_soft_hyphens\<close>,
  \<^verbatim>\<open>replace_common_errors\<close>, \<^verbatim>\<open>fix_period_spacing\<close>, \<^verbatim>\<open>fix_hyphenization\<close>,
  \<^verbatim>\<open>replace_quotes\<close>, and then \<^verbatim>\<open>normalize_apostrophes\<close> exactly when the language is
  English, Dutch or German; the result is written with two newline characters.
\<close>

theorem process_file_single_line:
  "py_strip line \<noteq> [] \<Longrightarrow>
   process_file alnum [Line line] language =
     map_sum id (\<lambda>l. l @ [NL, NL])
       ((if language = ENGLISH \<or> language = DUTCH \<or> language = GERMAN
         then normalize_apostrophes alnum else Inr)
          (replace_quotes language (fix_hyphenization alnum language (fix_period_spacing alnum
             (replace_common_errors language (remove_soft_hyphens (remove_double_spaces line)))))))"
  by (simp add: process_file_def process_line_def Let_def split: sum.splits)

theorem process_file_single_line_witness:
  "py_strip (U ''a.b'') \<noteq> [] \<and>
   process_file ascii_alnum [Line (U ''a.b'')] FRENCH = Inr (U ''a. b'' @ [NL, NL]) \<and>
   process_file ascii_alnum [Line (U ''a.b'')] ENGLISH = Inl ReError"
  using process_file_single_line[of "U ''a.b''" ascii_alnum FRENCH]
    process_file_single_line[of "U ''a.b''" ascii_alnum ENGLISH]
  by (simp add: ev)

lemma process_files_untouched:
  "n \<notin> fst ` set files \<Longrightarrow> fst (process_files alnum language files out) n = out n"
proof (induction files arbitrary: out)
  case Nil
  then show ?case by simp
next
  case (Cons x files)
  obtain name f where x: "x = (name, f)" by (cases x)
  with Cons show ?case by (cases "process_file alnum f language") auto
qed

lemma process_files_append:
  "\<forall>x \<in> set pre. \<exists>w. process_file alnum (snd x) language = Inr w \<Longrightarrow>
   process_files alnum language (pre @ rest) out
     = process_files alnum language rest (fst (process_files alnum language pre out))"
proof (induction pre arbitrary: out)
  case Nil
  then show ?case by simp
next
  case (Cons x pre)
  obtain name f where x: "x = (name, f)" by (cases x)
  from Cons.prems x obtain w where w: "process_file alnum f language = Inr w" by auto
  have ok: "\<forall>x \<in> set pre. \<exists>w. process_file alnum (snd x) language = Inr w"
    using Cons.prems by simp
  have 1: "process_files alnum language ((x # pre) @ rest) out
             = process_files alnum language (pre @ rest) (out(name \<mapsto> w))"
    using x w by simp
  have 2: "fst (process_files alnum language (x # pre) out)
             = fst (process_files alnum language pre (out(name \<mapsto> w)))"
    using x w by simp
  show ?case unfolding 1 2 by (rule Cons.IH[OF ok])
qed

lemma process_files_written:
  "\<forall>x \<in> set pre. \<exists>w. process_file alnum (snd x) language = Inr w \<Longrightarrow> distinct (map fst pre) \<Longrightarrow>
   (name, f) \<in> set pre \<Longrightarrow> process_file alnum f language = Inr w \<Longrightarrow>
   fst (process_files alnum language pre out) name = Some w"
proof (induction pre arbitrary: out)
  case Nil
  then show ?case by simp
next
  case (Cons x pre)
  obtain n g where x: "x = (n, g)" by (cases x)
  from Cons.prems(1) x obtain v where v: "process_file alnum g language = Inr v" by auto
  have ok: "\<forall>x \<in> set pre. \<exists>w. process_file alnum (snd x) language = Inr w"
    using Cons.prems(1) by simp
  have d: "distinct (map fst pre)" and nn: "n \<notin> fst ` set pre" using Cons.prems(2) x by auto
  show ?case
  proof (cases "(name, f) \<in> set pre")
    case True
    from Cons.IH[OF ok d True Cons.prems(4)] x v show ?thesis by simp
  next
    case False
    with Cons.prems(3) x have e: "name = n" "f = g" by auto
    with v Cons.prems(4) have "v = w" by simp
    with x v e process_files_untouched[OF nn, of alnum language "out(n \<mapsto> v)"] show ?thesis by simp
  qed
qed

text \<open>
  Claim C3 says that a file whose bytes cannot be decoded does not keep the other files
  of the batch from being processed. In a French batch of an undecodable \<^verbatim>\<open>a.txt\<close> and a
  readable \<^verbatim>\<open>b.txt\<close>, the run ends at \<^verbatim>\<open>a.txt\<close> and \<^verbatim>\<open>b.txt\<close> is never written.
\<close>

theorem process_folder_aborts:
  "process_folder ascii_alnum [(''a.txt'', [DecodeError]), (''b.txt'', [Line [0x78, NL]])]
     Map.empty FRENCH = (Map.empty, Some IOFailure) \<and>
   process_file ascii_alnum [Line [0x78, NL]] FRENCH = Inr [0x78, NL, NL]"
  by (simp add: ev process_folder_def click_choice_def LANGUAGES_def)

text \<open>
  Claim C3, as the code has it: when a file of the batch fails, the files listed before
  it (all of them processed without error, under distinct names) have their output
  written, the run ends with the error of the failing file, and nothing else in the
  output folder is touched: neither the failing file nor any file listed after it is
  written.
\<close>

theorem process_files_stop_at_first_failure:
  assumes ok: "\<forall>x \<in> set pre. \<exists>w. process_file alnum (snd x) language = Inr w"
    and bad: "process_file alnum file_in language = Inl e"
    and dist: "distinct (map fst pre)"
  shows "snd (process_files alnum language (pre @ (name, file_in) # post) folder_out) = Some e \<and>
    (\<forall>x \<in> set pre. \<forall>w. process_file alnum (snd x) language = Inr w \<longrightarrow>
       fst (process_files alnum language (pre @ (name, file_in) # post) folder_out) (fst x) = Some w) \<and>
    (\<forall>n. n \<notin> fst ` set pre \<longrightarrow>
       fst (process_files alnum language (pre @ (name, file_in) # post) folder_out) n = folder_out n)"
proof -
  let ?mid = "fst (process_files alnum language pre folder_out)"
  have run: "process_files alnum language (pre @ (name, file_in) # post) folder_out = (?mid, Some e)"
    using process_files_append[OF ok] bad by simp
  have "?mid (fst x) = Some w" if "x \<in> set pre" "process_file alnum (snd x) language = Inr w" for x w
    using process_files_written[OF ok dist, of "fst x" "snd x" w folder_out] that by simp
  moreover have "?mid n = folder_out n" if "n \<notin> fst ` set pre" for n
    using that by (rule process_files_untouched)
  ultimately show ?thesis unfolding run by simp
qed

theorem process_files_stop_at_first_failure_witness:
  "snd (process_files ascii_alnum FRENCH
          ([(''a.txt'', [Line [0x78, NL]])] @ (''b.txt'', [DecodeError]) # [(''c.txt'', [Line [0x79, NL]])])
          Map.empty) = Some IOFailure \<and>
   fst (process_files ascii_alnum FRENCH
          ([(''a.txt'', [Line [0x78, NL]])] @ (''b.txt'', [DecodeError]) # [(''c.txt'', [Line [0x79, NL]])])
          Map.empty) ''a.txt'' = Some [0x78, NL, NL] \<and>
   fst (process_files ascii_alnum FRENCH
          ([(''a.txt'', [Line [0x78, NL]])] @ (''b.txt'', [DecodeError]) # [(''c.txt'', [Line [0x79, NL]])])
          Map.empty) ''c.txt'' = None"
proof -
  have ok: "\<forall>x \<in> set [(''a.txt'', [Line [0x78, NL]])].
              \<exists>w. process_file ascii_alnum (snd x) FRENCH = Inr w"
    by (simp add: ev)
  have bad: "process_file ascii_alnum [DecodeError] FRENCH = Inl IOFailure"
    by (simp add: process_file_def)
  have dist: "distinct (map fst [(''a.txt'', [Line [0x78::nat, NL]])])" by simp
  have a: "process_file ascii_alnum [Line [0x78, NL]] FRENCH = Inr [0x78, NL, NL]"
    by (simp add: ev)
  from process_files_stop_at_first_failure[OF ok bad dist, of "''b.txt''"
      "[(''c.txt'', [Line [0x79, NL]])]" Map.empty] a
  show ?thesis by simp
qed

section \<open>The claims about single rules\<close>

subsection \<open>Common errors\<close>

lemma m_dash_local:
  assumes "\<not> is_space c" "c \<noteq> d" "t \<noteq> []"
  shows "m_dash d (t @ c # u) = m_dash d t"
proof (cases t)
  case Nil
  with assms show ?thesis by simp
next
  case (Cons a t1)
  show ?thesis
  proof (cases t1)
    case Nil
    with Cons assms show ?thesis by simp
  next
    case (Cons b t2)
    note t1 = Cons
    show ?thesis
    proof (cases t2)
      case Nil
      with t1 \<open>t = a # t1\<close> assms show ?thesis by simp
    next
      case (Cons e t3)
      with t1 \<open>t = a # t1\<close> assms show ?thesis by simp
    qed
  qed
qed

lemma opt_space_le: "opt_space t \<le> length t"
  by (cases t) auto

lemma m_dash_bound: "m_dash d t = Some (rep, n) \<Longrightarrow> n \<le> length t"
  using opt_space_le by (cases t) (auto split: if_splits list.splits simp: Suc_le_eq less_Suc_eq_le)

lemma re_sub_dash_block:
  assumes "\<not> is_space c" "c \<noteq> d"
  shows "re_sub (m_dash d) (xs @ c # ys) = re_sub (m_dash d) xs @ re_sub (m_dash d) (c # ys)"
  by (rule re_sub_append) (use assms in \<open>simp_all add: m_dash_local m_dash_bound\<close>)

lemma re_sub_dash_head:
  assumes "\<not> is_space c" "c \<noteq> d"
  shows "re_sub (m_dash d) (c # ys) = c # re_sub (m_dash d) ys"
  using assms by (cases ys) auto

lemma re_sub_dash_E_apos:
  assumes "d \<noteq> 0x45" "d \<noteq> APOS"
  shows "re_sub (m_dash d) (xs @ 0x45 # APOS # ys)
           = re_sub (m_dash d) xs @ 0x45 # APOS # re_sub (m_dash d) ys"
proof -
  have e: "\<not> is_space 0x45" and a: "\<not> is_space APOS" by (simp_all add: is_space_def)
  have "re_sub (m_dash d) (xs @ 0x45 # APOS # ys)
          = re_sub (m_dash d) xs @ re_sub (m_dash d) (0x45 # APOS # ys)"
    using e assms(1) by (intro re_sub_dash_block) auto
  also have "re_sub (m_dash d) (0x45 # APOS # ys) = 0x45 # re_sub (m_dash d) (APOS # ys)"
    using e assms(1) by (intro re_sub_dash_head) auto
  also have "re_sub (m_dash d) (APOS # ys) = APOS # re_sub (m_dash d) ys"
    using a assms(2) by (intro re_sub_dash_head) auto
  finally show ?thesis by simp
qed

lemma py_replace_E_apos_append:
  "py_replace [0x45, APOS] [0xC8] (xs @ [0x45, APOS] @ ys)
     = py_replace [0x45, APOS] [0xC8] xs @ [0xC8] @ py_replace [0x45, APOS] [0xC8] ys"
proof (induction xs rule: length_induct)
  case (1 xs)
  show ?case
  proof (cases xs)
    case Nil
    then show ?thesis by simp
  next
    case (Cons a as)
    note xs = Cons
    show ?thesis
    proof (cases as)
      case Nil
      with xs show ?thesis by simp
    next
      case (Cons b bs)
      have ih1: "py_replace [0x45, APOS] [0xC8] (as @ [0x45, APOS] @ ys)
         = py_replace [0x45, APOS] [0xC8] as @ [0xC8] @ py_replace [0x45, APOS] [0xC8] ys"
        using 1 xs by simp
      have ih2: "py_replace [0x45, APOS] [0xC8] (bs @ [0x45, APOS] @ ys)
         = py_replace [0x45, APOS] [0xC8] bs @ [0xC8] @ py_replace [0x45, APOS] [0xC8] ys"
        using 1 xs Cons by simp
      show ?thesis
      proof (cases "a = 0x45 \<and> b = APOS")
        case True
        with xs Cons ih2 show ?thesis by simp
      next
        case False
        with xs Cons ih1 show ?thesis by auto
      qed
    qed
  qed
qed

text \<open>
  Claim C4 names the sequence capital E, right single quotation mark (U+2019). For
  Italian that sequence is left as it is; it does not become the letter E grave.
\<close>

theorem replace_common_errors_E_right_quote:
  "replace_common_errors ITALIAN [0x45, 0x2019] = [0x45, 0x2019] \<and>
   replace_common_errors ITALIAN [0x45, 0x2019] \<noteq> [0xC8]"
  by (simp add: ev)

text \<open>
  Claim C4, as the code has it: for Italian \<^verbatim>\<open>replace_common_errors\<close> replaces every
  occurrence of capital E followed by the apostrophe (U+0027) with the letter E grave
  (U+00C8); for every other language that sequence is left unchanged. Wherever the
  sequence stands in a line, the result is the result for what precedes it, then the
  replacement (or the sequence itself), then the result for what follows it.
\<close>

theorem replace_common_errors_E_apostrophe:
  "replace_common_errors language (xs @ [0x45, APOS] @ ys)
     = replace_common_errors language xs
       @ (if language = ITALIAN then [0xC8] else [0x45, APOS])
       @ replace_common_errors language ys"
proof -
  let ?f = "\<lambda>s. py_replace [0x2026] [DOT, DOT, DOT]
                (re_sub (m_dash 0x2014) (re_sub (m_dash 0x2013) (re_sub (m_dash 0x2012) s)))"
  have f: "?f (xs @ [0x45, APOS] @ ys) = ?f xs @ [0x45, APOS] @ ?f ys"
    by (simp add: re_sub_dash_E_apos py_replace_char del: re_sub.simps)
  show ?thesis
  proof (cases "language = ITALIAN")
    case True
    then show ?thesis
      unfolding replace_common_errors_def Let_def using f py_replace_E_apos_append by simp
  next
    case False
    then show ?thesis unfolding replace_common_errors_def Let_def using f by simp
  qed
qed

subsection \<open>Catalan quotes\<close>

lemma m_catalan_local: "t \<noteq> [] \<Longrightarrow> m_catalan (t @ QUOTE # DOT # u) = m_catalan t"
proof (cases t)
  case Nil
  assume "t \<noteq> []"
  with Nil show ?thesis by simp
next
  case (Cons a t1)
  then show ?thesis by (cases t1) auto
qed

lemma m_catalan_bound: "m_catalan t = Some (rep, n) \<Longrightarrow> n \<le> length t"
  by (induction t rule: m_catalan.induct) (auto split: if_splits)

lemma re_sub_catalan_append:
  "re_sub m_catalan (xs @ QUOTE # DOT # ys) = re_sub m_catalan xs @ DOT # QUOTE # re_sub m_catalan ys"
proof -
  have "re_sub m_catalan (xs @ QUOTE # DOT # ys)
          = re_sub m_catalan xs @ re_sub m_catalan (QUOTE # DOT # ys)"
    by (rule re_sub_append) (simp_all add: m_catalan_local m_catalan_bound)
  then show ?thesis by simp
qed

lemma guillemets_map:
  "guillemets s = map (\<lambda>x. if x = 0xAB \<or> x = 0xBB then QUOTE
                             else if x = 0x2039 \<or> x = 0x203A \<or> x = 0x3C \<or> x = 0x3E then APOS
                             else x) s"
  by (simp add: guillemets_def Let_def py_replace_char_char)

lemma curly_quotes_map:
  "curly_quotes s = map (\<lambda>x. if x = 0x201C \<or> x = 0x201D then QUOTE
                               else if x = 0x2018 \<or> x = 0x2019 then APOS
                               else x) s"
  by (simp add: curly_quotes_def Let_def py_replace_char_char)

lemma replace_quotes_catalan:
  "replace_quotes CATALAN s = re_sub m_catalan (curly_quotes (guillemets s))"
  by (simp add: replace_quotes_def Let_def language_defs)

text \<open>
  Claim C5 says that for Catalan a period before a closing double quote is moved behind
  it. A line ending in period, quote is returned as it is.
\<close>

theorem replace_quotes_catalan_period_before_quote:
  "replace_quotes CATALAN [0x61, DOT, QUOTE] = [0x61, DOT, QUOTE] \<and>
   replace_quotes CATALAN [0x61, DOT, QUOTE] \<noteq> [0x61, QUOTE, DOT]"
  by (simp add: ev)

text \<open>
  Claim C5, as the code has it: for Catalan \<^verbatim>\<open>replace_quotes\<close> moves a period that
  follows a double quote in front of it (quote, period becomes period, quote), wherever
  the pair stands in the line, and this is its last step, after the guillemets and the
  curly quotes have been replaced; a line ending in quote, period ends in period, quote.
\<close>

theorem replace_quotes_catalan_quote_before_period:
  "replace_quotes CATALAN (xs @ [QUOTE, DOT] @ ys)
     = replace_quotes CATALAN xs @ [DOT, QUOTE] @ replace_quotes CATALAN ys \<and>
   replace_quotes CATALAN line = re_sub m_catalan (curly_quotes (guillemets line)) \<and>
   replace_quotes CATALAN [0x61, QUOTE, DOT] = [0x61, DOT, QUOTE]"
proof -
  have "curly_quotes (guillemets (xs @ [QUOTE, DOT] @ ys))
          = curly_quotes (guillemets xs) @ QUOTE # DOT # curly_quotes (guillemets ys)"
    by (simp add: guillemets_map curly_quotes_map)
  then have "replace_quotes CATALAN (xs @ [QUOTE, DOT] @ ys)
     = replace_quotes CATALAN xs @ [DOT, QUOTE] @ replace_quotes CATALAN ys"
    by (simp only: replace_quotes_catalan re_sub_catalan_append append.simps)
  moreover have "replace_quotes CATALAN [0x61, QUOTE, DOT] = [0x61, DOT, QUOTE]"
    by (simp add: ev)
  ultimately show ?thesis using replace_quotes_catalan by blast
qed

subsection \<open>Hyphenation\<close>

lemma overlapping_Cons: "\<not> overlapping alnum (c # s) \<Longrightarrow> \<not> overlapping alnum s"
  by (induction alnum "c # s" rule: overlapping.induct) auto

lemma overlapping_drop: "\<not> overlapping alnum s \<Longrightarrow> \<not> overlapping alnum (drop n s)"
proof (induction n arbitrary: s)
  case 0
  then show ?case by simp
next
  case (Suc n)
  show ?case
  proof (cases s)
    case Nil
    then show ?thesis by simp
  next
    case (Cons c cs)
    with Suc.prems have "\<not> overlapping alnum cs" using overlapping_Cons by blast
    with Suc.IH Cons show ?thesis by simp
  qed
qed

lemma m_hyphen_Some:
  "m_hyphen alnum s = Some (rep, n) \<longleftrightarrow>
     (\<exists>a b c rest. s = a # HYPHEN # b # c # rest \<and> is_word alnum a \<and> is_space b \<and>
        is_word alnum c \<and> rep = [a, HYPHEN, c] \<and> n = 4)"
  by (induction alnum s rule: m_hyphen.induct) auto

lemma re_sub_hyphen_drop_gaps:
  assumes disj: "\<And>c. is_space c \<Longrightarrow> \<not> is_word alnum c"
  shows "\<not> overlapping alnum s \<Longrightarrow>
    (\<forall>c cs. s = c # cs \<longrightarrow> \<not> hyphen_gap alnum before c cs \<and>
       (\<forall>d ds. cs = d # ds \<longrightarrow> \<not> hyphen_gap alnum (c # before) d ds)) \<Longrightarrow>
    re_sub (m_hyphen alnum) s = drop_gaps alnum before s"
proof (induction s arbitrary: before rule: length_induct)
  case (1 s)
  note IH = "1.IH" and nov = "1.prems"(1) and safe = "1.prems"(2)
  show ?case
  proof (cases s)
    case Nil
    then show ?thesis by simp
  next
    case (Cons a cs)
    from safe Cons have s0: "\<not> hyphen_gap alnum before a cs"
      and s1: "\<And>d ds. cs = d # ds \<Longrightarrow> \<not> hyphen_gap alnum (a # before) d ds" by auto
    show ?thesis
    proof (cases "m_hyphen alnum s")
      case None
      have nov': "\<not> overlapping alnum cs" using nov Cons overlapping_Cons by blast
      have safe': "\<forall>c cs'. cs = c # cs' \<longrightarrow> \<not> hyphen_gap alnum (a # before) c cs' \<and>
         (\<forall>d ds. cs' = d # ds \<longrightarrow> \<not> hyphen_gap alnum (c # a # before) d ds)"
      proof (intro allI impI conjI)
        fix c cs' assume "cs = c # cs'"
        then show "\<not> hyphen_gap alnum (a # before) c cs'" using s1 by blast
      next
        fix c cs' d ds assume e: "cs = c # cs'" "cs' = d # ds"
        show "\<not> hyphen_gap alnum (c # a # before) d ds"
        proof
          assume g: "hyphen_gap alnum (c # a # before) d ds"
          then obtain x xs where ds: "ds = x # xs" by (cases ds) auto
          with g have "is_word alnum a" "c = HYPHEN" "is_space d" "is_word alnum x" by auto
          with e ds Cons have "m_hyphen alnum s = Some ([a, HYPHEN, x], 4)" by simp
          with None show False by simp
        qed
      qed
      have "re_sub (m_hyphen alnum) cs = drop_gaps alnum (a # before) cs"
        using IH Cons nov' safe' by simp
      with None Cons s0 show ?thesis by simp
    next
      case (Some p)
      obtain rep n where p: "p = (rep, n)" by (cases p)
      from Some p obtain b c rest where s: "s = a # HYPHEN # b # c # rest"
        and wa: "is_word alnum a" and sb: "is_space b" and wc: "is_word alnum c"
        and rep: "rep = [a, HYPHEN, c]" and n: "n = 4"
        using m_hyphen_Some[of alnum s rep n] Cons by auto
      have cs: "cs = HYPHEN # b # c # rest" using s Cons by simp
      have nh: "\<not> is_space HYPHEN" by (simp add: is_space_def)
      have nov': "\<not> overlapping alnum rest" using overlapping_drop[OF nov, of 4] s by simp
      have safe': "\<forall>x xs. rest = x # xs \<longrightarrow> \<not> hyphen_gap alnum (c # b # HYPHEN # a # before) x xs \<and>
         (\<forall>d ds. xs = d # ds \<longrightarrow> \<not> hyphen_gap alnum (x # c # b # HYPHEN # a # before) d ds)"
      proof (intro allI impI conjI)
        fix x xs assume "rest = x # xs"
        show "\<not> hyphen_gap alnum (c # b # HYPHEN # a # before) x xs"
          using disj[OF sb] by (cases xs) auto
      next
        fix x xs d ds assume e: "rest = x # xs" "xs = d # ds"
        show "\<not> hyphen_gap alnum (x # c # b # HYPHEN # a # before) d ds"
        proof
          assume g: "hyphen_gap alnum (x # c # b # HYPHEN # a # before) d ds"
          then obtain y ys where ds: "ds = y # ys" by (cases ds) auto
          with g have "x = HYPHEN" "is_space d" "is_word alnum y" by auto
          with e ds s wa sb wc have "overlapping alnum s" by simp
          with nov show False by simp
        qed
      qed
      have len: "length rest < length s" using s by simp
      have ih: "re_sub (m_hyphen alnum) rest = drop_gaps alnum (c # b # HYPHEN # a # before) rest"
        using IH len nov' safe' by blast
      have l: "re_sub (m_hyphen alnum) s = a # HYPHEN # c # re_sub (m_hyphen alnum) rest"
        using s wa sb wc by simp
      have g1: "\<not> hyphen_gap alnum (a # before) HYPHEN (b # c # rest)"
        using nh by (cases before) auto
      have g2: "hyphen_gap alnum (HYPHEN # a # before) b (c # rest)" using wa sb wc by simp
      have g3: "\<not> hyphen_gap alnum (b # HYPHEN # a # before) c rest"
        using sb nh by (cases rest) auto
      have r: "drop_gaps alnum before s
                 = a # HYPHEN # c # drop_gaps alnum (c # b # HYPHEN # a # before) rest"
        using s0 cs g1 g2 g3 s by simp
      show ?thesis unfolding l r ih ..
    qed
  qed
qed

lemma re_sub_hyphen_collapse_every:
  assumes "\<And>c. is_space c \<Longrightarrow> \<not> alnum c" "\<not> overlapping alnum line"
  shows "re_sub (m_hyphen alnum) line = collapse_every alnum line"
proof -
  have "\<not> is_word alnum c" if "is_space c" for c
    using assms(1)[OF that] that by (auto simp: is_word_def is_space_def)
  then show ?thesis unfolding collapse_every_def
    using assms(2) by (intro re_sub_hyphen_drop_gaps) auto
qed

text \<open>
  Claim C7 says that every occurrence of word character, hyphen, space, word character
  is collapsed. In \<^verbatim>\<open>a- b- c\<close> the second occurrence begins with the \<^verbatim>\<open>b\<close> that ends the
  first, and stays.
\<close>

theorem fix_hyphenization_overlap:
  "fix_hyphenization ascii_alnum SPANISH (U ''a- b- c'') = U ''a-b- c'' \<and>
   collapse_every ascii_alnum (U ''a- b- c'') = U ''a-b-c''"
  by (simp add: ev collapse_every_def)

text \<open>
  Claim C7, as the code has it: on a line in which no two occurrences overlap,
  \<^verbatim>\<open>fix_hyphenization\<close> first collapses every occurrence of word character, hyphen,
  whitespace, word character into word character, hyphen, word character, then for
  Dutch only rewrites \<^verbatim>\<open>-en \<close> and \<^verbatim>\<open>-of \<close> to \<^verbatim>\<open>- en \<close> and \<^verbatim>\<open>- of \<close>, and for
  German only \<^verbatim>\<open>-und \<close> and \<^verbatim>\<open>-oder \<close> to \<^verbatim>\<open>- und \<close> and \<^verbatim>\<open>- oder \<close>; the two
  examples hold. (That no whitespace character is alphanumeric holds of every Unicode
  database.)
\<close>

theorem fix_hyphenization_collapses:
  "((\<forall>c. is_space c \<longrightarrow> \<not> alnum c) \<and> \<not> overlapping alnum line \<longrightarrow>
      fix_hyphenization alnum language line =
        (if language = GERMAN
         then py_replace (U ''-oder '') (U ''- oder '') \<circ> py_replace (U ''-und '') (U ''- und '')
         else id)
          ((if language = DUTCH
            then py_replace (U ''-of '') (U ''- of '') \<circ> py_replace (U ''-en '') (U ''- en '')
            else id)
             (collapse_every alnum line))) \<and>
   fix_hyphenization alnum DUTCH (U ''woord-en zijn'') = U ''woord- en zijn'' \<and>
   fix_hyphenization alnum GERMAN (U ''Wort-und Satz'') = U ''Wort- und Satz''"
proof (intro conjI impI)
  assume a: "(\<forall>c. is_space c \<longrightarrow> \<not> alnum c) \<and> \<not> overlapping alnum line"
  then have "re_sub (m_hyphen alnum) line = collapse_every alnum line"
    by (intro re_sub_hyphen_collapse_every) auto
  then show "fix_hyphenization alnum language line =
        (if language = GERMAN
         then py_replace (U ''-oder '') (U ''- oder '') \<circ> py_replace (U ''-und '') (U ''- und '')
         else id)
          ((if language = DUTCH
            then py_replace (U ''-of '') (U ''- of '') \<circ> py_replace (U ''-en '') (U ''- en '')
            else id)
             (collapse_every alnum line))"
    by (simp add: fix_hyphenization_def Let_def)
next
  show "fix_hyphenization alnum DUTCH (U ''woord-en zijn'') = U ''woord- en zijn''"
    by (simp add: fix_hyphenization_def U_def language_defs is_word_def is_space_def)
next
  show "fix_hyphenization alnum GERMAN (U ''Wort-und Satz'') = U ''Wort- und Satz''"
    by (simp add: fix_hyphenization_def U_def language_defs is_word_def is_space_def)
qed

theorem fix_hyphenization_collapses_witness:
  "\<not> overlapping ascii_alnum (U ''a- b-en c- d'') \<and>
   collapse_every ascii_alnum (U ''a- b-en c- d'') = U ''a-b-en c-d'' \<and>
   fix_hyphenization ascii_alnum DUTCH (U ''a- b-en c- d'') = U ''a-b- en c-d'' \<and>
   fix_hyphenization ascii_alnum SPANISH (U ''a- b-en c- d'') = U ''a-b-en c-d''"
proof -
  have d: "\<forall>c. is_space c \<longrightarrow> \<not> ascii_alnum c"
    by (auto simp: is_space_def ascii_alnum_def)
  have o: "\<not> overlapping ascii_alnum (U ''a- b-en c- d'')"
    by (simp add: U_def is_word_def is_space_def ascii_alnum_def)
  have c: "collapse_every ascii_alnum (U ''a- b-en c- d'') = U ''a-b-en c-d''"
    by (simp add: collapse_every_def U_def is_word_def is_space_def ascii_alnum_def)
  from fix_hyphenization_collapses[where alnum = ascii_alnum and line = "U ''a- b-en c- d''"
      and language = DUTCH]
    fix_hyphenization_collapses[where alnum = ascii_alnum and line = "U ''a- b-en c- d''"
      and language = SPANISH] d o c
  show ?thesis by (simp add: U_def language_defs)
qed

end
